theory Spec2Isabelle
  imports Complex_Main "HOL-Library.Sublist"
begin

section \<open>Strings as the program uses them\<close>

text \<open>
  JavaScript strings are modelled as \<^typ>\<open>string\<close>.  \<open>startsWith\<close> and \<open>endsWith\<close> are
  \<^verbatim>\<open>String.prototype.startsWith\<close> and \<^verbatim>\<open>String.prototype.endsWith\<close>.
\<close>

fun startsWith :: "string \<Rightarrow> string \<Rightarrow> bool" where
  "startsWith s [] = True"
| "startsWith [] (c # cs) = False"
| "startsWith (d # ds) (c # cs) = (d = c \<and> startsWith ds cs)"

definition endsWith :: "string \<Rightarrow> string \<Rightarrow> bool" where
  "endsWith s suf = startsWith (rev s) (rev suf)"

section \<open>App.tsx: the download filename\<close>

text \<open>
  \<^verbatim>\<open>pdfFilename.endsWith('.pdf') ? pdfFilename : `${pdfFilename}.pdf`\<close>
\<close>

definition finalPdfFilename :: "string \<Rightarrow> string" where
  "finalPdfFilename pdfFilename =
     (if endsWith pdfFilename ''.pdf'' then pdfFilename else pdfFilename @ ''.pdf'')"

section \<open>JavaScript values\<close>

text \<open>
  A thrown or rejected value is either an \<^verbatim>\<open>Error\<close> object carrying a message or some other
  value (the \<^verbatim>\<open>ProgressEvent\<close> a \<^verbatim>\<open>FileReader\<close> hands to \<^verbatim>\<open>onerror\<close>); the source tells
  them apart with \<^verbatim>\<open>error instanceof Error\<close>.  An optional string is \<^verbatim>\<open>undefined\<close>/\<^verbatim>\<open>null\<close>
  (\<open>None\<close>) or a string; it is truthy when it is a non-empty string, and a template literal
  renders \<^verbatim>\<open>undefined\<close> as the text \<open>undefined\<close>.
\<close>

datatype thrown = Error string | NonError

definition truthy :: "string option \<Rightarrow> bool" where
  "truthy v = (case v of None \<Rightarrow> False | Some s \<Rightarrow> s \<noteq> [])"

definition js_str :: "string option \<Rightarrow> string" where
  "js_str v = (case v of None \<Rightarrow> ''undefined'' | Some s \<Rightarrow> s)"

text \<open>\<^verbatim>\<open>xs[i]\<close> on an array: \<^verbatim>\<open>undefined\<close> when \<open>i\<close> is out of range.\<close>

fun nth_opt :: "'a list \<Rightarrow> nat \<Rightarrow> 'a option" where
  "nth_opt [] i = None"
| "nth_opt (x # xs) 0 = Some x"
| "nth_opt (x # xs) (Suc i) = nth_opt xs i"

text \<open>
  \<^verbatim>\<open>s.split(sep)\<close> for a non-empty separator: the pieces between the left-to-right,
  non-overlapping occurrences of \<open>sep\<close>.  \<open>splitOn sep cur s\<close> has already read \<open>cur\<close> of the
  current piece.  (Both separators of the source are non-empty; with the empty separator
  the model returns the string as one piece.)
\<close>

function splitOn :: "string \<Rightarrow> string \<Rightarrow> string \<Rightarrow> string list" where
  "splitOn sep cur [] = [cur]"
| "splitOn sep cur (c # cs) =
     (if sep \<noteq> [] \<and> startsWith (c # cs) sep
      then cur # splitOn sep [] (drop (length sep) (c # cs))
      else splitOn sep (cur @ [c]) cs)"
  by pat_completeness auto
termination
  by (relation "measure (\<lambda>(sep, cur, s). length s)") auto

definition split :: "string \<Rightarrow> string \<Rightarrow> string list" where
  "split s sep = splitOn sep [] s"

text \<open>Decimal rendering of a number inside a template literal.\<close>

function show_nat :: "nat \<Rightarrow> string" where
  "show_nat n =
     (if n < 10 then [''0123456789'' ! n]
      else show_nat (n div 10) @ [''0123456789'' ! (n mod 10)])"
  by pat_completeness auto
termination
  by (relation "measure id") auto

declare show_nat.simps [simp del]

section \<open>services/geminiService: the cleanup collaborator\<close>

text \<open>
  A \<^verbatim>\<open>File\<close> is known to the program by its name and by what
  \<^verbatim>\<open>FileReader.readAsDataURL\<close> delivers for it: the data URL handed to \<^verbatim>\<open>onload\<close>, or
  \<open>None\<close> when the reader fires \<^verbatim>\<open>onerror\<close>.
\<close>

record File =
  fileName :: string
  readAsDataURL :: "string option"

text \<open>
  \<^verbatim>\<open>const [mimeTypePart, data] = result.split(';base64,');\<close>
  \<^verbatim>\<open>const mimeType = mimeTypePart.split(':')[1];\<close>
  \<^verbatim>\<open>if (mimeType && data) resolve({mimeType, data}) else reject(new Error(...))\<close>;
  \<^verbatim>\<open>reader.onerror = (error) => reject(error)\<close> rejects with a value that is not an
  \<^verbatim>\<open>Error\<close>.  (\<^verbatim>\<open>split\<close> never returns the empty array, so the first piece is always
  there.)
\<close>

definition fileToBase64 :: "File \<Rightarrow> thrown + string \<times> string" where
  "fileToBase64 file =
     (case readAsDataURL file of
        None \<Rightarrow> Inl NonError
      | Some result \<Rightarrow>
          (let pieces = split result '';base64,'' in
           case (case nth_opt pieces 0 of
                   None \<Rightarrow> None
                 | Some mimeTypePart \<Rightarrow> nth_opt (split mimeTypePart '':'') 1,
                 nth_opt pieces 1) of
             (Some mt, Some b64) \<Rightarrow>
               if mt \<noteq> [] \<and> b64 \<noteq> [] then Inr (mt, b64)
               else Inl (Error ''Failed to parse base64 string from file.'')
           | _ \<Rightarrow> Inl (Error ''Failed to parse base64 string from file.'')))"

text \<open>
  The response of \<^verbatim>\<open>ai.models.generateContent\<close>, with the optional fields the source reads.
  The type \<open>'r\<close> of a safety rating is left open.
\<close>

record InlineData =
  mimeType :: "string option"
  data :: "string option"

record Part =
  inlineData :: "InlineData option"
  partText :: "string option"

record Content =
  parts :: "Part list option"

record 'r Candidate =
  finishReason :: "string option"
  safetyRatings :: "'r list option"
  content :: "Content option"

record 'r GenerateContentResponse =
  candidates :: "'r Candidate list option"

text \<open>\<^verbatim>\<open>candidate.content?.parts\<close>\<close>

definition contentParts :: "'r Candidate \<Rightarrow> Part list option" where
  "contentParts candidate = (case content candidate of None \<Rightarrow> None | Some c \<Rightarrow> parts c)"

text \<open>
  Lines 69 to 93 of the service: what \<^verbatim>\<open>cleanImage\<close> does with the response, inside its
  \<^verbatim>\<open>try\<close> block.  \<open>stringify\<close> is \<^verbatim>\<open>JSON.stringify\<close> on the safety ratings.
\<close>

definition readResponse :: "('r list \<Rightarrow> string) \<Rightarrow> 'r GenerateContentResponse \<Rightarrow> thrown + string" where
  "readResponse stringify response =
     (case (case candidates response of None \<Rightarrow> None | Some cs \<Rightarrow> nth_opt cs 0) of
        None \<Rightarrow> Inl (Error ''API response did not contain any candidates.'')
      | Some candidate \<Rightarrow>
          if truthy (finishReason candidate) \<and> finishReason candidate \<noteq> Some ''STOP'' then
            Inl (Error (''Image generation stopped. Reason: '' @ js_str (finishReason candidate) @ ''.'' @
              (case safetyRatings candidate of
                 None \<Rightarrow> []
               | Some rs \<Rightarrow> if length rs > 0 then '' Safety Ratings: '' @ stringify rs else [])))
          else
            (case (case (case contentParts candidate of
                           None \<Rightarrow> None
                         | Some ps \<Rightarrow> find (\<lambda>part. inlineData part \<noteq> None) ps) of
                     None \<Rightarrow> None
                   | Some imagePartResponse \<Rightarrow> inlineData imagePartResponse) of
               Some blob \<Rightarrow>
                 Inr (''data:'' @ js_str (mimeType blob) @ '';base64,'' @ js_str (data blob))
             | None \<Rightarrow>
                 (case (case contentParts candidate of
                          None \<Rightarrow> None
                        | Some ps \<Rightarrow> find (\<lambda>part. truthy (partText part)) ps) of
                    Some textPartResponse \<Rightarrow>
                      if truthy (partText textPartResponse) then
                        Inl (Error (''API returned text instead of an image: '' @ [CHR 0x22] @
                          js_str (partText textPartResponse) @ [CHR 0x22]))
                      else
                        Inl (Error ''API did not return an image. The response was empty or malformed.'')
                  | None \<Rightarrow>
                      Inl (Error ''API did not return an image. The response was empty or malformed.''))))"

text \<open>
  \<^verbatim>\<open>cleanImage\<close>: the \<^verbatim>\<open>try\<close> block reads the file, calls the service (which answers or
  throws) and reads the response; the \<^verbatim>\<open>catch\<close> block rethrows every failure as a new
  \<^verbatim>\<open>Error\<close>.
\<close>

definition cleanImage_try ::
  "('r list \<Rightarrow> string) \<Rightarrow> (string \<Rightarrow> string \<Rightarrow> thrown + 'r GenerateContentResponse) \<Rightarrow>
     File \<Rightarrow> thrown + string" where
  "cleanImage_try stringify generateContent file =
     (case fileToBase64 file of
        Inl e \<Rightarrow> Inl e
      | Inr (mt, b64) \<Rightarrow>
          (case generateContent mt b64 of
             Inl e \<Rightarrow> Inl e
           | Inr response \<Rightarrow> readResponse stringify response))"

definition cleanImage ::
  "('r list \<Rightarrow> string) \<Rightarrow> (string \<Rightarrow> string \<Rightarrow> thrown + 'r GenerateContentResponse) \<Rightarrow>
     File \<Rightarrow> thrown + string" where
  "cleanImage stringify generateContent file =
     (case cleanImage_try stringify generateContent file of
        Inr uri \<Rightarrow> Inr uri
      | Inl (Error message) \<Rightarrow> Inl (Error (''Failed to process image with AI. '' @ message))
      | Inl NonError \<Rightarrow> Inl (Error ''Failed to process image with AI. An unknown error occurred.''))"





section \<open>types.ts\<close>

datatype ProcessingState = IDLE | PROCESSING | COMPLETE | ERROR

record ImageFile =
  imageId :: string
  "file" :: File
  originalUrl :: string
  cleanedUrl :: "string option"

section \<open>App.tsx: the session\<close>

text \<open>The component's state: one field per \<^verbatim>\<open>useState\<close> hook.\<close>

record Session =
  imageFiles :: "ImageFile list"
  processingState :: ProcessingState
  pdfFilename :: string
  pdfUrl :: "string option"
  progressMessage :: string
  errorMessage :: string
  showPdfPreview :: bool

subsection \<open>Numbers\<close>

text \<open>
  A JavaScript number in the layout arithmetic.  Arithmetic on finite numbers is exact:
  the rounding of IEEE doubles and the sign of zero are not modelled.  Division by zero
  and the infinities behave as in JavaScript.
\<close>

datatype jsnum = Finite rat | PosInfinity | NegInfinity | NaN

fun jdiv :: "jsnum \<Rightarrow> jsnum \<Rightarrow> jsnum" where
  "jdiv (Finite a) (Finite b) =
     (if b \<noteq> 0 then Finite (a / b)
      else if a = 0 then NaN else if a > 0 then PosInfinity else NegInfinity)"
| "jdiv (Finite a) PosInfinity = Finite 0"
| "jdiv (Finite a) NegInfinity = Finite 0"
| "jdiv PosInfinity (Finite b) = (if b \<ge> 0 then PosInfinity else NegInfinity)"
| "jdiv NegInfinity (Finite b) = (if b \<ge> 0 then NegInfinity else PosInfinity)"
| "jdiv _ _ = NaN"

fun jmul :: "jsnum \<Rightarrow> jsnum \<Rightarrow> jsnum" where
  "jmul (Finite a) (Finite b) = Finite (a * b)"
| "jmul (Finite a) PosInfinity = (if a = 0 then NaN else if a > 0 then PosInfinity else NegInfinity)"
| "jmul (Finite a) NegInfinity = (if a = 0 then NaN else if a > 0 then NegInfinity else PosInfinity)"
| "jmul PosInfinity (Finite b) = (if b = 0 then NaN else if b > 0 then PosInfinity else NegInfinity)"
| "jmul NegInfinity (Finite b) = (if b = 0 then NaN else if b > 0 then NegInfinity else PosInfinity)"
| "jmul PosInfinity PosInfinity = PosInfinity"
| "jmul NegInfinity NegInfinity = PosInfinity"
| "jmul PosInfinity NegInfinity = NegInfinity"
| "jmul NegInfinity PosInfinity = NegInfinity"
| "jmul _ _ = NaN"

fun jsub :: "jsnum \<Rightarrow> jsnum \<Rightarrow> jsnum" where
  "jsub (Finite a) (Finite b) = Finite (a - b)"
| "jsub (Finite a) PosInfinity = NegInfinity"
| "jsub (Finite a) NegInfinity = PosInfinity"
| "jsub PosInfinity (Finite b) = PosInfinity"
| "jsub NegInfinity (Finite b) = NegInfinity"
| "jsub PosInfinity NegInfinity = PosInfinity"
| "jsub NegInfinity PosInfinity = NegInfinity"
| "jsub _ _ = NaN"

text \<open>\<^verbatim>\<open>a > b\<close>: false as soon as one side is \<^verbatim>\<open>NaN\<close>.\<close>

fun jgt :: "jsnum \<Rightarrow> jsnum \<Rightarrow> bool" where
  "jgt (Finite a) (Finite b) = (a > b)"
| "jgt PosInfinity (Finite b) = True"
| "jgt PosInfinity NegInfinity = True"
| "jgt (Finite a) NegInfinity = True"
| "jgt _ _ = False"

subsection \<open>Events and environment\<close>

text \<open>
  What a run does, in the order it does it: a call of \<^verbatim>\<open>setProgressMessage\<close>, the
  invocation of \<^verbatim>\<open>cleanImage\<close> for the upload item at an index, the settling of that call's
  promise, the calls on the jsPDF document (constructor, \<^verbatim>\<open>addPage\<close>, \<^verbatim>\<open>addImage\<close>,
  \<^verbatim>\<open>output\<close>), and a call of \<^verbatim>\<open>URL.revokeObjectURL\<close>.
\<close>

datatype event =
    SetProgressMessage string
  | CleanImageCall nat File
  | CleanImageSettled nat
  | NewDocument
  | AddPage
  | AddImage string jsnum jsnum jsnum jsnum
  | Output
  | RevokeObjectURL string

text \<open>
  Everything outside the program that a run depends on: \<^verbatim>\<open>JSON.stringify\<close> on safety
  ratings; the service's answer to the request made for the upload item at an index; the
  order in time in which the pending \<^verbatim>\<open>cleanImage\<close> promises settle (an item that is not
  listed never settles: there is no timeout); the width and height an \<^verbatim>\<open>Image\<close> reports
  once \<^verbatim>\<open>onload\<close> fires for a data URI (\<open>None\<close>: it never fires); and the object URL
  created for the finished document.
\<close>

record 'r Environment =
  jsonStringify :: "'r list \<Rightarrow> string"
  generateContentAt :: "nat \<Rightarrow> string \<Rightarrow> string \<Rightarrow> thrown + 'r GenerateContentResponse"
  settleOrder :: "nat list"
  imageSize :: "string \<Rightarrow> (nat \<times> nat) option"
  createObjectURL :: string

subsection \<open>startOver\<close>

text \<open>
  \<^verbatim>\<open>imageFiles.forEach(img => URL.revokeObjectURL(img.originalUrl));\<close>
  \<^verbatim>\<open>if (pdfUrl) URL.revokeObjectURL(pdfUrl);\<close> and then the six state resets.
\<close>

definition startOver :: "Session \<Rightarrow> Session \<times> event list" where
  "startOver s =
     (s\<lparr>imageFiles := [], processingState := IDLE, pdfUrl := None, progressMessage := [],
        errorMessage := [], showPdfPreview := False\<rparr>,
      map (\<lambda>img. RevokeObjectURL (originalUrl img)) (imageFiles s) @
      (case pdfUrl s of
         None \<Rightarrow> []
       | Some u \<Rightarrow> if u \<noteq> [] then [RevokeObjectURL u] else []) @
      [SetProgressMessage []])"

text \<open>
  The resources a session holds: the display URL of every upload item and, when there is
  one, the URL of the output document (an object URL is never the empty string).
\<close>

definition heldResources :: "Session \<Rightarrow> string list" where
  "heldResources s =
     map originalUrl (imageFiles s) @ (if truthy (pdfUrl s) then [js_str (pdfUrl s)] else [])"

subsection \<open>handleProcessImages: cleaning\<close>

text \<open>\<^verbatim>\<open>`Cleaning image ${index + 1} of ${imageFiles.length}...`\<close>\<close>

definition progressText :: "nat \<Rightarrow> nat \<Rightarrow> string" where
  "progressText index n =
     ''Cleaning image '' @ show_nat (index + 1) @ '' of '' @ show_nat n @ ''...''"

text \<open>
  \<^verbatim>\<open>imageFiles.map(async (imageFile, index) => { setProgressMessage(...); const cleanedUrl =
  await cleanImage(imageFile.file); ... })\<close>: \<^verbatim>\<open>map\<close> calls the callback for each item in
  turn, and each callback runs until its \<^verbatim>\<open>await\<close>: it sets the progress text, invokes
  \<^verbatim>\<open>cleanImage\<close>, and is suspended on the returned promise, which cannot settle before the
  running job has ended.  \<open>n\<close> is \<^verbatim>\<open>imageFiles.length\<close>.
\<close>

fun startCleaning :: "nat \<Rightarrow> nat \<Rightarrow> ImageFile list \<Rightarrow> Session \<Rightarrow> Session \<times> event list" where
  "startCleaning n index [] s = (s, [])"
| "startCleaning n index (imageFile # rest) s =
     (let (s', t) = startCleaning n (Suc index) rest (s\<lparr>progressMessage := progressText index n\<rparr>)
      in (s', SetProgressMessage (progressText index n) # CleanImageCall index (file imageFile) # t))"

text \<open>
  \<^verbatim>\<open>await Promise.all(cleanedImagePromises)\<close>.  \<open>outcomes\<close> holds what each call settles
  with, \<open>resolved\<close> the values of the calls fulfilled so far, \<open>order\<close> the settlements still
  to come.  \<^verbatim>\<open>Promise.all\<close> is fulfilled with all values, in index order, once every call
  is fulfilled; it is rejected with the reason of the first call seen to reject; when the
  settlements run out before either, it stays pending.  The settlements seen until then are
  the events; an index out of range or already settled is passed over.
\<close>

datatype 'a settled = Pending | Rejected thrown | Fulfilled 'a

fun awaitAll ::
  "(thrown + string) list \<Rightarrow> (nat \<times> string) list \<Rightarrow> nat list \<Rightarrow> event list \<times> string list settled" where
  "awaitAll outcomes resolved [] =
     (case those (map (map_of resolved) [0..<length outcomes]) of
        Some urls \<Rightarrow> ([], Fulfilled urls)
      | None \<Rightarrow> ([], Pending))"
| "awaitAll outcomes resolved (k # later) =
     (case those (map (map_of resolved) [0..<length outcomes]) of
        Some urls \<Rightarrow> ([], Fulfilled urls)
      | None \<Rightarrow>
          if k \<ge> length outcomes \<or> map_of resolved k \<noteq> None then awaitAll outcomes resolved later
          else
            (case outcomes ! k of
               Inl reason \<Rightarrow> ([CleanImageSettled k], Rejected reason)
             | Inr url \<Rightarrow>
                 (let (t, r) = awaitAll outcomes ((k, url) # resolved) later
                  in (CleanImageSettled k # t, r))))"

subsection \<open>handleProcessImages: layout\<close>

definition A4_WIDTH :: rat where "A4_WIDTH = 210"
definition A4_HEIGHT :: rat where "A4_HEIGHT = 297"
definition MARGIN :: rat where "MARGIN = 10"
definition pageWidth :: rat where "pageWidth = A4_WIDTH - MARGIN * 2"
definition pageHeight :: rat where "pageHeight = A4_HEIGHT - MARGIN * 2"

text \<open>
  Lines 102 to 115: from the decoded image's width and height to the arguments
  \<open>(x, y, finalWidth, finalHeight)\<close> of \<^verbatim>\<open>doc.addImage\<close>.
\<close>

definition fitImage :: "nat \<Rightarrow> nat \<Rightarrow> jsnum \<times> jsnum \<times> jsnum \<times> jsnum" where
  "fitImage imgWidth imgHeight =
     (let ratio = jdiv (Finite (of_nat imgWidth)) (Finite (of_nat imgHeight));
          finalWidth = Finite pageWidth;
          finalHeight = jdiv finalWidth ratio;
          (finalWidth, finalHeight) =
            (if jgt finalHeight (Finite pageHeight)
             then (jmul (Finite pageHeight) ratio, Finite pageHeight)
             else (finalWidth, finalHeight));
          x = jdiv (jsub (Finite A4_WIDTH) finalWidth) (Finite 2);
          y = jdiv (jsub (Finite A4_HEIGHT) finalHeight) (Finite 2)
      in (x, y, finalWidth, finalHeight))"

text \<open>
  The loop of lines 91 to 119 from index \<open>i\<close> on, over the remaining items.  It returns
  the calls made on the document and whether the loop ran to its end: waiting for an image
  whose \<^verbatim>\<open>onload\<close> never fires suspends the task for good.
\<close>

fun layoutLoop ::
  "(string \<Rightarrow> (nat \<times> nat) option) \<Rightarrow> nat \<Rightarrow> ImageFile list \<Rightarrow> event list \<times> bool" where
  "layoutLoop sizeOf i [] = ([], True)"
| "layoutLoop sizeOf i (img # rest) =
     (case cleanedUrl img of
        None \<Rightarrow> layoutLoop sizeOf (Suc i) rest
      | Some imgData \<Rightarrow>
          if imgData = [] then layoutLoop sizeOf (Suc i) rest
          else
            (case sizeOf imgData of
               None \<Rightarrow> (if i > 0 then [AddPage] else [], False)
             | Some (imgWidth, imgHeight) \<Rightarrow>
                 (let (x, y, finalWidth, finalHeight) = fitImage imgWidth imgHeight;
                      (t, finished) = layoutLoop sizeOf (Suc i) rest
                  in ((if i > 0 then [AddPage] else []) @
                      AddImage imgData x y finalWidth finalHeight # t, finished))))"

text \<open>
  The number of pages of the document that a sequence of jsPDF calls builds: the
  constructor creates the document with its first page, and every \<^verbatim>\<open>addPage\<close> appends one.
\<close>

definition pageCount :: "event list \<Rightarrow> nat" where
  "pageCount t = length (filter (\<lambda>e. e = NewDocument \<or> e = AddPage) t)"

subsection \<open>handleProcessImages\<close>

text \<open>
  A run of \<^verbatim>\<open>handleProcessImages\<close> on a session, told as the session it leaves and the
  events it makes.  The guard on the empty upload sequence returns at once.  Otherwise the
  status becomes \<open>PROCESSING\<close>, the calls are started and awaited together, and then:
  while \<^verbatim>\<open>Promise.all\<close> is pending the task stays suspended in \<open>PROCESSING\<close>; when it
  rejects, the \<^verbatim>\<open>catch\<close> block stores the message and sets \<open>ERROR\<close>; when it is fulfilled,
  the items get their cleaned URLs, the document is laid out and, if the loop ends, its
  object URL is stored and the status becomes \<open>COMPLETE\<close>.  The calls into the jsPDF
  library and \<^verbatim>\<open>URL.createObjectURL\<close> are taken not to throw.
\<close>

definition handleProcessImages :: "'r Environment \<Rightarrow> Session \<Rightarrow> Session \<times> event list" where
  "handleProcessImages env s =
     (if length (imageFiles s) = 0 then
        (s\<lparr>errorMessage := ''Please upload at least one image.''\<rparr>, [])
      else
        (let (s1, started) =
               startCleaning (length (imageFiles s)) 0 (imageFiles s)
                 (s\<lparr>processingState := PROCESSING, errorMessage := []\<rparr>);
             outcomes =
               map (\<lambda>(index, imageFile).
                      cleanImage (jsonStringify env) (generateContentAt env index) (file imageFile))
                 (enumerate 0 (imageFiles s));
             (settlements, result) = awaitAll outcomes [] (settleOrder env)
         in case result of
              Pending \<Rightarrow> (s1, started @ settlements)
            | Rejected error \<Rightarrow>
                (s1\<lparr>errorMessage :=
                      (case error of
                         Error message \<Rightarrow> message
                       | NonError \<Rightarrow> ''An unknown error occurred.''),
                    processingState := ERROR\<rparr>,
                 started @ settlements)
            | Fulfilled urls \<Rightarrow>
                (let cleanedImages =
                       map (\<lambda>(imageFile, url). imageFile\<lparr>cleanedUrl := Some url\<rparr>)
                         (zip (imageFiles s) urls);
                     s2 = s1\<lparr>imageFiles := cleanedImages, progressMessage := ''Generating PDF...''\<rparr>;
                     (placed, finished) = layoutLoop (imageSize env) 0 cleanedImages
                 in if finished then
                      (s2\<lparr>pdfUrl := Some (createObjectURL env), processingState := COMPLETE,
                          progressMessage := ''Your PDF is ready!'', showPdfPreview := True\<rparr>,
                       started @ settlements @
                       SetProgressMessage ''Generating PDF...'' # NewDocument # placed @
                       [Output, SetProgressMessage ''Your PDF is ready!''])
                    else
                      (s2, started @ settlements @
                           SetProgressMessage ''Generating PDF...'' # NewDocument # placed))))"

section \<open>Reading a run\<close>

fun isCall :: "event \<Rightarrow> bool" where
  "isCall (CleanImageCall k f) = True"
| "isCall _ = False"

fun isSettled :: "event \<Rightarrow> bool" where
  "isSettled (CleanImageSettled k) = True"
| "isSettled _ = False"

fun isRevoke :: "event \<Rightarrow> bool" where
  "isRevoke (RevokeObjectURL u) = True"
| "isRevoke _ = False"

text \<open>The data URIs handed to \<^verbatim>\<open>addImage\<close>, in order.\<close>

fun placedImages :: "event list \<Rightarrow> string list" where
  "placedImages [] = []"
| "placedImages (AddImage u x y w h # t) = u # placedImages t"
| "placedImages (e # t) = placedImages t"

text \<open>
  The pair of events with which the callback of \<^verbatim>\<open>map\<close> begins for the item at \<open>index\<close>.
\<close>

definition callOf :: "ImageFile list \<Rightarrow> nat \<Rightarrow> event list" where
  "callOf items index =
     [SetProgressMessage (progressText index (length items)),
      CleanImageCall index (file (items ! index))]"

text \<open>
  Serial cleaning, as a property of a run: whenever the call for an item starts, the
  calls for all earlier items have settled.  \<open>settledSoFar\<close> collects the settled indices.
\<close>

fun serialCleaning :: "nat list \<Rightarrow> event list \<Rightarrow> bool" where
  "serialCleaning settledSoFar [] = True"
| "serialCleaning settledSoFar (CleanImageSettled i # t) = serialCleaning (i # settledSoFar) t"
| "serialCleaning settledSoFar (CleanImageCall j f # t) =
     (list_all (\<lambda>i. i \<in> set settledSoFar) [0..<j] \<and> serialCleaning settledSoFar t)"
| "serialCleaning settledSoFar (e # t) = serialCleaning settledSoFar t"


text \<open>What the call for the upload item at \<open>index\<close> settles with.\<close>

definition outcomeOf :: "'r Environment \<Rightarrow> Session \<Rightarrow> nat \<Rightarrow> thrown + string" where
  "outcomeOf env s index =
     cleanImage (jsonStringify env) (generateContentAt env index) (file (imageFiles s ! index))"

section \<open>Example inputs\<close>

definition ex_file :: File where
  "ex_file = \<lparr>fileName = ''page1.png'', readAsDataURL = Some ''data:image/png;base64,AAAA''\<rparr>"

definition ex_image_part :: Part where
  "ex_image_part =
     \<lparr>inlineData = Some \<lparr>mimeType = Some ''image/png'', data = Some ''QUJD''\<rparr>, partText = None\<rparr>"


definition ex_response :: "string option \<Rightarrow> Part list \<Rightarrow> string GenerateContentResponse" where
  "ex_response fr ps =
     \<lparr>candidates = Some [\<lparr>finishReason = fr, safetyRatings = Some [''HARM''],
        content = Some \<lparr>parts = Some ps\<rparr>\<rparr>]\<rparr>"

definition ex_item :: "string \<Rightarrow> string option \<Rightarrow> ImageFile" where
  "ex_item nm cleaned =
     \<lparr>imageId = nm,
      file = \<lparr>fileName = nm, readAsDataURL = Some ''data:image/png;base64,AAAA''\<rparr>,
      originalUrl = ''blob:'' @ nm, cleanedUrl = cleaned\<rparr>"

definition ex_unreadable :: "string \<Rightarrow> ImageFile" where
  "ex_unreadable nm =
     \<lparr>imageId = nm, file = \<lparr>fileName = nm, readAsDataURL = None\<rparr>,
      originalUrl = ''blob:'' @ nm, cleanedUrl = None\<rparr>"

definition ex_session :: "ImageFile list \<Rightarrow> Session" where
  "ex_session items =
     \<lparr>imageFiles = items, processingState = IDLE, pdfFilename = ''scanned-documents'',
      pdfUrl = None, progressMessage = [], errorMessage = [], showPdfPreview = False\<rparr>"

definition ex_env :: "nat list \<Rightarrow> string Environment" where
  "ex_env order =
     \<lparr>jsonStringify = concat,
      generateContentAt = (\<lambda>index mt b64. Inr (ex_response None [ex_image_part])),
      settleOrder = order,
      imageSize = (\<lambda>u. Some (3, 2)),
      createObjectURL = ''blob:pdf''\<rparr>"

definition ex_uploads :: "ImageFile list" where
  "ex_uploads = [ex_item ''a'' None, ex_item ''b'' None]"

definition ex_failing :: "ImageFile list" where
  "ex_failing = [ex_unreadable ''a'', ex_item ''b'' None]"




section \<open>Facts about the string helpers\<close>

lemma startsWith_prefix: "startsWith s p \<longleftrightarrow> prefix p s"
  by (induction s p rule: startsWith.induct) auto

lemma endsWith_suffix: "endsWith s suf \<longleftrightarrow> suffix suf s"
  by (simp add: endsWith_def startsWith_prefix suffix_to_prefix)

section \<open>The download filename\<close>

text \<open>
  C7.  A name that already ends with \<open>.pdf\<close> is kept as it is; any other name gets
  \<open>.pdf\<close> appended once; and the mapping is idempotent.
\<close>

theorem finalPdfFilename_suffix_once:
  "(suffix ''.pdf'' s \<longrightarrow> finalPdfFilename s = s) \<and>
   (\<not> suffix ''.pdf'' s \<longrightarrow> finalPdfFilename s = s @ ''.pdf'') \<and>
   finalPdfFilename (finalPdfFilename s) = finalPdfFilename s"
  by (simp add: finalPdfFilename_def endsWith_suffix suffix_def)

theorem finalPdfFilename_suffix_once_witness:
  "suffix ''.pdf'' ''report.pdf'' \<and> finalPdfFilename ''report.pdf'' = ''report.pdf'' \<and>
   \<not> suffix ''.pdf'' ''report'' \<and> finalPdfFilename ''report'' = ''report.pdf'' \<and>
   finalPdfFilename (finalPdfFilename ''report'') = finalPdfFilename ''report''"
  using finalPdfFilename_suffix_once [of "''report.pdf''"]
    finalPdfFilename_suffix_once [of "''report''"]
  by (simp add: suffix_to_prefix)

section \<open>The cleanup collaborator: reading the response\<close>

















section \<open>The cleanup collaborator: failures\<close>

text \<open>
  C10.  Whatever makes \<open>cleanImage\<close> fail, the error it throws is an \<^verbatim>\<open>Error\<close> whose message
  starts with \<open>Failed to process image with AI.\<close>; the message of the underlying
  \<^verbatim>\<open>Error\<close> follows when there is one, and a fixed text otherwise.
\<close>

theorem cleanImage_failure_prefix:
  assumes "cleanImage sf service f = Inl e"
  shows "(\<exists>cause. e = Error (''Failed to process image with AI.'' @ cause)) \<and>
         (\<forall>m. cleanImage_try sf service f = Inl (Error m) \<longrightarrow>
            e = Error (''Failed to process image with AI. '' @ m)) \<and>
         (cleanImage_try sf service f = Inl NonError \<longrightarrow>
            e = Error ''Failed to process image with AI. An unknown error occurred.'')"
  using assms by (auto simp: cleanImage_def split: sum.splits thrown.splits)

theorem cleanImage_failure_prefix_witness:
  "cleanImage concat (\<lambda>m d. Inr (ex_response None [])) \<lparr>fileName = ''x'', readAsDataURL = None\<rparr> =
     Inl (Error ''Failed to process image with AI. An unknown error occurred.'') \<and>
   cleanImage_try concat (\<lambda>m d. Inr (ex_response None [])) \<lparr>fileName = ''x'', readAsDataURL = None\<rparr> =
     Inl NonError \<and>
   cleanImage concat (\<lambda>m d. Inr (ex_response None [])) \<lparr>fileName = ''x'', readAsDataURL = Some ''data:''\<rparr> =
     Inl (Error ''Failed to process image with AI. Failed to parse base64 string from file.'') \<and>
   cleanImage_try concat (\<lambda>m d. Inr (ex_response None [])) \<lparr>fileName = ''x'', readAsDataURL = Some ''data:''\<rparr> =
     Inl (Error ''Failed to parse base64 string from file.'') \<and>
   cleanImage concat (\<lambda>m d. Inl (Error ''fetch failed'') :: thrown + string GenerateContentResponse) ex_file =
     Inl (Error ''Failed to process image with AI. fetch failed'') \<and>
   cleanImage_try concat (\<lambda>m d. Inl (Error ''fetch failed'') :: thrown + string GenerateContentResponse) ex_file =
     Inl (Error ''fetch failed'')"
proof -
  have a: "cleanImage concat (\<lambda>m d. Inr (ex_response None [])) \<lparr>fileName = ''x'', readAsDataURL = None\<rparr> =
     Inl (Error ''Failed to process image with AI. An unknown error occurred.'')"
    by code_simp
  have b: "cleanImage concat (\<lambda>m d. Inr (ex_response None [])) \<lparr>fileName = ''x'', readAsDataURL = Some ''data:''\<rparr> =
     Inl (Error ''Failed to process image with AI. Failed to parse base64 string from file.'')"
    by code_simp
  have c: "cleanImage_try concat (\<lambda>m d. Inr (ex_response None [])) \<lparr>fileName = ''x'', readAsDataURL = None\<rparr> =
     Inl NonError"
    by code_simp
  have d: "cleanImage_try concat (\<lambda>m d. Inr (ex_response None [])) \<lparr>fileName = ''x'', readAsDataURL = Some ''data:''\<rparr> =
     Inl (Error ''Failed to parse base64 string from file.'')"
    by code_simp
  have e: "cleanImage concat (\<lambda>m d. Inl (Error ''fetch failed'') :: thrown + string GenerateContentResponse) ex_file =
     Inl (Error ''Failed to process image with AI. fetch failed'')"
    by code_simp
  have g: "cleanImage_try concat (\<lambda>m d. Inl (Error ''fetch failed'') :: thrown + string GenerateContentResponse) ex_file =
     Inl (Error ''fetch failed'')"
    by code_simp
  from cleanImage_failure_prefix [OF a] cleanImage_failure_prefix [OF b]
    cleanImage_failure_prefix [OF e] a b c d e g
  show ?thesis by simp
qed

section \<open>The shape of a run\<close>

lemma startCleaning_events:
  "snd (startCleaning n i items s) =
     concat (map (\<lambda>(k, im). [SetProgressMessage (progressText k n), CleanImageCall k (file im)])
       (enumerate i items))"
proof (induction items arbitrary: i s)
  case Nil
  then show ?case by simp
next
  case (Cons im items)
  obtain s' t where "startCleaning n (Suc i) items (s\<lparr>progressMessage := progressText i n\<rparr>) = (s', t)"
    by (cases "startCleaning n (Suc i) items (s\<lparr>progressMessage := progressText i n\<rparr>)")
  with Cons [of "Suc i" "s\<lparr>progressMessage := progressText i n\<rparr>"]
  show ?case by simp
qed

lemma startCleaning_state:
  "\<exists>m. fst (startCleaning n i items s) = s\<lparr>progressMessage := m\<rparr>"
proof (induction items arbitrary: i s)
  case Nil
  have "s = s\<lparr>progressMessage := progressMessage s\<rparr>" by simp
  then show ?case by (metis fst_conv startCleaning.simps(1))
next
  case (Cons im items)
  from Cons [of "Suc i" "s\<lparr>progressMessage := progressText i n\<rparr>"]
  show ?case by (auto split: prod.splits)
qed

lemma enumerate_map_nth:
  "map (\<lambda>(k, x). g k x) (enumerate 0 xs) = map (\<lambda>k. g k (xs ! k)) [0..<length xs]"
  by (rule nth_equalityI) (auto simp: nth_enumerate_eq)

lemma started_calls:
  "snd (startCleaning (length items) 0 items s) = concat (map (callOf items) [0..<length items])"
proof -
  have "map (\<lambda>(k, im). [SetProgressMessage (progressText k (length items)), CleanImageCall k (file im)])
          (enumerate 0 items) = map (callOf items) [0..<length items]"
    unfolding callOf_def by (rule enumerate_map_nth)
  then show ?thesis by (simp only: startCleaning_events)
qed

lemma length_concat_callOf: "length (concat (map (callOf items) ks)) = 2 * length ks"
  by (induction ks) (auto simp: callOf_def)

lemma filter_isCall_callOf:
  "filter isCall (concat (map (callOf items) ks)) = map (\<lambda>i. CleanImageCall i (file (items ! i))) ks"
  by (induction ks) (auto simp: callOf_def)

lemma filter_isSettled_callOf: "filter isSettled (concat (map (callOf items) ks)) = []"
  by (induction ks) (auto simp: callOf_def)

lemma awaitAll_events: "e \<in> set (fst (awaitAll outs resolved order)) \<Longrightarrow> \<exists>k. e = CleanImageSettled k"
  by (induction outs resolved order rule: awaitAll.induct)
    (auto split: option.splits if_splits sum.splits prod.splits)

lemma layoutLoop_events:
  "e \<in> set (fst (layoutLoop sizeOf i items)) \<Longrightarrow> e = AddPage \<or> (\<exists>u x y w h. e = AddImage u x y w h)"
  by (induction sizeOf i items rule: layoutLoop.induct)
    (auto split: option.splits if_splits prod.splits)

lemma handleProcessImages_trace:
  assumes "imageFiles s \<noteq> []"
  shows "\<exists>rest. snd (handleProcessImages env s) =
           concat (map (callOf (imageFiles s)) [0..<length (imageFiles s)]) @ rest \<and>
           (\<forall>e\<in>set rest. \<not> isCall e)"
proof -
  define s0 where "s0 = s\<lparr>processingState := PROCESSING, errorMessage := []\<rparr>"
  define outs where "outs = map (\<lambda>(index, imageFile).
      cleanImage (jsonStringify env) (generateContentAt env index) (file imageFile))
        (enumerate 0 (imageFiles s))"
  obtain s1 started where sc: "startCleaning (length (imageFiles s)) 0 (imageFiles s) s0 = (s1, started)"
    by (cases "startCleaning (length (imageFiles s)) 0 (imageFiles s) s0")
  obtain settlements result where aw: "awaitAll outs [] (settleOrder env) = (settlements, result)"
    by (cases "awaitAll outs [] (settleOrder env)")
  have st: "started = concat (map (callOf (imageFiles s)) [0..<length (imageFiles s)])"
    using started_calls [of "imageFiles s" s0] sc by simp
  have se: "\<forall>e\<in>set settlements. \<not> isCall e"
    using awaitAll_events [of _ outs "[]" "settleOrder env"] aw by fastforce
  show ?thesis
  proof (cases result)
    case Pending
    with assms sc aw se st show ?thesis
      by (simp add: handleProcessImages_def s0_def outs_def)
  next
    case (Rejected err)
    with assms sc aw se st show ?thesis
      by (simp add: handleProcessImages_def s0_def outs_def)
  next
    case (Fulfilled urls)
    define cleaned where "cleaned = map (\<lambda>(imageFile, url). imageFile\<lparr>cleanedUrl := Some url\<rparr>)
        (zip (imageFiles s) urls)"
    obtain placed finished where ll: "layoutLoop (imageSize env) 0 cleaned = (placed, finished)"
      by (cases "layoutLoop (imageSize env) 0 cleaned")
    have pe: "\<forall>e\<in>set placed. \<not> isCall e"
      using layoutLoop_events [of _ "imageSize env" 0 cleaned] ll by fastforce
    from Fulfilled assms sc aw se st ll pe show ?thesis
      by (cases finished) (auto simp: handleProcessImages_def s0_def outs_def cleaned_def)
  qed
qed

section \<open>Starting assembly without uploads\<close>

text \<open>
  C4.  With an empty upload sequence, starting assembly makes no call at all (neither
  \<open>cleanImage\<close> nor the document library), leaves the status as it was (\<open>IDLE\<close> when it
  was \<open>IDLE\<close>) and only sets the message asking for at least one image.
\<close>

theorem handleProcessImages_empty:
  assumes "imageFiles s = []"
  shows "snd (handleProcessImages env s) = [] \<and>
         fst (handleProcessImages env s) = s\<lparr>errorMessage := ''Please upload at least one image.''\<rparr> \<and>
         processingState (fst (handleProcessImages env s)) = processingState s \<and>
         pdfUrl (fst (handleProcessImages env s)) = pdfUrl s"
  using assms by (simp add: handleProcessImages_def)

theorem handleProcessImages_empty_witness:
  "imageFiles (ex_session []) = [] \<and>
   snd (handleProcessImages (ex_env [0]) (ex_session [])) = [] \<and>
   processingState (ex_session []) = IDLE \<and>
   processingState (fst (handleProcessImages (ex_env [0]) (ex_session []))) = IDLE \<and>
   errorMessage (fst (handleProcessImages (ex_env [0]) (ex_session []))) =
     ''Please upload at least one image.''"
proof -
  have h: "imageFiles (ex_session []) = []" by (simp add: ex_session_def)
  from handleProcessImages_empty [OF h, of "ex_env [0]"] h show ?thesis
    by (simp add: ex_session_def)
qed

section \<open>Starting over\<close>

text \<open>
  C8.  From any session, \<open>startOver\<close> makes one release call for each held resource (the
  display URL of every upload item, then the output URL when there is one), so every
  resource is released exactly once, and leaves a session that is \<open>IDLE\<close> with no upload
  item, no output URL, and empty progress and error texts.
\<close>

theorem startOver_releases_and_resets:
  "filter isRevoke (snd (startOver s)) = map RevokeObjectURL (heldResources s) \<and>
   (distinct (heldResources s) \<longrightarrow>
      (\<forall>u\<in>set (heldResources s). count_list (snd (startOver s)) (RevokeObjectURL u) = 1)) \<and>
   imageFiles (fst (startOver s)) = [] \<and>
   processingState (fst (startOver s)) = IDLE \<and>
   pdfUrl (fst (startOver s)) = None \<and>
   progressMessage (fst (startOver s)) = [] \<and>
   errorMessage (fst (startOver s)) = []"
proof -
  have ev: "snd (startOver s) = map RevokeObjectURL (heldResources s) @ [SetProgressMessage []]"
    by (simp add: startOver_def heldResources_def truthy_def js_str_def split: option.splits)
  have fl: "filter isRevoke (map RevokeObjectURL us) = map RevokeObjectURL us" for us
    by (induction us) auto
  have cnt: "count_list (map RevokeObjectURL us) (RevokeObjectURL u) = count_list us u" for us u
    by (induction us) auto
  have one: "distinct us \<Longrightarrow> u \<in> set us \<Longrightarrow> count_list us u = 1" for us :: "string list" and u
    by (induction us) auto
  have "count_list (heldResources s) u = 1" if "distinct (heldResources s)" "u \<in> set (heldResources s)" for u
    using that by (rule one)
  then show ?thesis
    by (simp add: ev fl cnt) (simp add: startOver_def)
qed

theorem startOver_releases_and_resets_witness:
  "distinct (heldResources ((ex_session ex_uploads)\<lparr>pdfUrl := Some ''blob:pdf''\<rparr>)) \<and>
   snd (startOver ((ex_session ex_uploads)\<lparr>pdfUrl := Some ''blob:pdf''\<rparr>)) =
     [RevokeObjectURL ''blob:a'', RevokeObjectURL ''blob:b'', RevokeObjectURL ''blob:pdf'',
      SetProgressMessage []] \<and>
   count_list (snd (startOver ((ex_session ex_uploads)\<lparr>pdfUrl := Some ''blob:pdf''\<rparr>)))
     (RevokeObjectURL ''blob:b'') = 1 \<and>
   count_list (snd (startOver ((ex_session ex_uploads)\<lparr>pdfUrl := Some ''blob:pdf''\<rparr>)))
     (RevokeObjectURL ''blob:pdf'') = 1 \<and>
   imageFiles (fst (startOver ((ex_session ex_uploads)\<lparr>pdfUrl := Some ''blob:pdf''\<rparr>))) = []"
proof -
  have r: "heldResources ((ex_session ex_uploads)\<lparr>pdfUrl := Some ''blob:pdf''\<rparr>) =
      [''blob:a'', ''blob:b'', ''blob:pdf'']"
    by (simp add: heldResources_def ex_session_def ex_uploads_def ex_item_def truthy_def js_str_def)
  have e: "snd (startOver ((ex_session ex_uploads)\<lparr>pdfUrl := Some ''blob:pdf''\<rparr>)) =
     [RevokeObjectURL ''blob:a'', RevokeObjectURL ''blob:b'', RevokeObjectURL ''blob:pdf'',
      SetProgressMessage []]"
    by (simp add: startOver_def ex_session_def ex_uploads_def ex_item_def)
  from startOver_releases_and_resets [of "(ex_session ex_uploads)\<lparr>pdfUrl := Some ''blob:pdf''\<rparr>"] e
  show ?thesis by (simp add: r)
qed

section \<open>The cleaning calls\<close>

text \<open>
  C1.  For a non-empty upload sequence of length \<open>n\<close>, a run starts with \<open>n\<close> pairs of
  events, one per upload item in upload order: the progress text is set to the message
  for position \<open>i\<close> of \<open>n\<close>, and right after it \<open>cleanImage\<close> is invoked for item \<open>i\<close>.
  Nothing later in the run invokes \<open>cleanImage\<close>: it is invoked exactly \<open>n\<close> times.
\<close>

theorem cleaning_calls_in_upload_order:
  assumes "imageFiles s \<noteq> []"
  shows "take (2 * length (imageFiles s)) (snd (handleProcessImages env s)) =
           concat (map (callOf (imageFiles s)) [0..<length (imageFiles s)]) \<and>
         filter isCall (drop (2 * length (imageFiles s)) (snd (handleProcessImages env s))) = [] \<and>
         filter isCall (snd (handleProcessImages env s)) =
           map (\<lambda>i. CleanImageCall i (file (imageFiles s ! i))) [0..<length (imageFiles s)]"
proof -
  obtain rest where t: "snd (handleProcessImages env s) =
      concat (map (callOf (imageFiles s)) [0..<length (imageFiles s)]) @ rest"
    and r: "\<forall>e\<in>set rest. \<not> isCall e"
    using handleProcessImages_trace [OF assms] by blast
  have len: "length (concat (map (callOf (imageFiles s)) [0..<length (imageFiles s)])) =
      2 * length (imageFiles s)"
    by (simp add: length_concat_callOf)
  have fr: "filter isCall rest = []" using r by (simp add: filter_empty_conv)
  show ?thesis
    by (simp add: t len fr filter_isCall_callOf)
qed

lemma ex_uploads_calls:
  "concat (map (callOf ex_uploads) [0..<length ex_uploads]) =
     [SetProgressMessage ''Cleaning image 1 of 2...'', CleanImageCall 0 (file (ex_item ''a'' None)),
      SetProgressMessage ''Cleaning image 2 of 2...'', CleanImageCall 1 (file (ex_item ''b'' None))]"
  by code_simp

theorem cleaning_calls_in_upload_order_witness:
  "imageFiles (ex_session ex_uploads) \<noteq> [] \<and>
   take 4 (snd (handleProcessImages (ex_env [1, 0]) (ex_session ex_uploads))) =
     [SetProgressMessage ''Cleaning image 1 of 2...'', CleanImageCall 0 (file (ex_item ''a'' None)),
      SetProgressMessage ''Cleaning image 2 of 2...'', CleanImageCall 1 (file (ex_item ''b'' None))] \<and>
   filter isCall (drop 4 (snd (handleProcessImages (ex_env [1, 0]) (ex_session ex_uploads)))) = [] \<and>
   filter isCall (snd (handleProcessImages (ex_env [1, 0]) (ex_session ex_uploads))) =
     [CleanImageCall 0 (file (ex_item ''a'' None)), CleanImageCall 1 (file (ex_item ''b'' None))]"
proof -
  have i: "imageFiles (ex_session ex_uploads) = ex_uploads" by (simp add: ex_session_def)
  have h: "imageFiles (ex_session ex_uploads) \<noteq> []" by (simp add: ex_session_def ex_uploads_def)
  have l: "2 * length ex_uploads = 4" by (simp add: ex_uploads_def)
  have c: "map (\<lambda>i. CleanImageCall i (file (ex_uploads ! i))) [0..<length ex_uploads] =
      [CleanImageCall 0 (file (ex_item ''a'' None)), CleanImageCall 1 (file (ex_item ''b'' None))]"
    by (simp add: ex_uploads_def upt_rec)
  from cleaning_calls_in_upload_order [OF h, of "ex_env [1, 0]"] h show ?thesis
    by (simp only: i l c ex_uploads_calls) simp
qed

section \<open>Cleaning is not serial\<close>

lemma callOf_from_two:
  assumes "2 \<le> n"
  shows "concat (map (callOf items) [0..<n]) =
    callOf items 0 @ callOf items 1 @ concat (map (callOf items) [2..<n])"
proof -
  from assms have "[0..<n] = 0 # 1 # [2..<n]"
    by (simp add: upt_conv_Cons numeral_2_eq_2)
  then show ?thesis by simp
qed

lemma not_serial_two_calls: "\<not> serialCleaning [] (callOf items 0 @ callOf items 1 @ t)"
  by (simp add: callOf_def)

text \<open>
  C2, as the code has it.  For a non-empty upload sequence, all \<open>n\<close> calls of
  \<open>cleanImage\<close> are made, in upload order, before any of them settles: the first \<open>2n\<close>
  events of the run hold every call and no settlement, and the rest holds no call.  So with
  two or more uploads the run is not serial: the second call starts while the first is
  pending.
\<close>

theorem all_calls_start_before_any_settles:
  assumes "imageFiles s \<noteq> []"
  shows "filter isCall (take (2 * length (imageFiles s)) (snd (handleProcessImages env s))) =
           map (\<lambda>i. CleanImageCall i (file (imageFiles s ! i))) [0..<length (imageFiles s)] \<and>
         filter isSettled (take (2 * length (imageFiles s)) (snd (handleProcessImages env s))) = [] \<and>
         filter isCall (drop (2 * length (imageFiles s)) (snd (handleProcessImages env s))) = [] \<and>
         (2 \<le> length (imageFiles s) \<longrightarrow> \<not> serialCleaning [] (snd (handleProcessImages env s)))"
proof -
  obtain rest where t: "snd (handleProcessImages env s) =
      concat (map (callOf (imageFiles s)) [0..<length (imageFiles s)]) @ rest"
    and r: "\<forall>e\<in>set rest. \<not> isCall e"
    using handleProcessImages_trace [OF assms] by blast
  have len: "length (concat (map (callOf (imageFiles s)) [0..<length (imageFiles s)])) =
      2 * length (imageFiles s)"
    by (simp add: length_concat_callOf)
  have fr: "filter isCall rest = []" using r by (simp add: filter_empty_conv)
  have ns: "\<not> serialCleaning [] (snd (handleProcessImages env s))" if "2 \<le> length (imageFiles s)"
    unfolding t callOf_from_two [OF that] using not_serial_two_calls by simp
  show ?thesis
    using ns by (simp add: t len fr filter_isCall_callOf filter_isSettled_callOf)
qed

text \<open>
  With two uploads whose calls settle in upload order, the run is not serial all the same.
\<close>

theorem second_call_starts_before_first_settles:
  "\<not> serialCleaning [] (snd (handleProcessImages (ex_env [0, 1]) (ex_session ex_uploads)))"
  by code_simp

theorem all_calls_start_before_any_settles_witness:
  "imageFiles (ex_session ex_uploads) \<noteq> [] \<and> 2 \<le> length (imageFiles (ex_session ex_uploads)) \<and>
   \<not> serialCleaning [] (snd (handleProcessImages (ex_env [1, 0]) (ex_session ex_uploads))) \<and>
   filter isSettled (take 4 (snd (handleProcessImages (ex_env [1, 0]) (ex_session ex_uploads)))) = [] \<and>
   filter isCall (take 4 (snd (handleProcessImages (ex_env [1, 0]) (ex_session ex_uploads)))) =
     [CleanImageCall 0 (file (ex_item ''a'' None)), CleanImageCall 1 (file (ex_item ''b'' None))]"
proof -
  have i: "imageFiles (ex_session ex_uploads) = ex_uploads" by (simp add: ex_session_def)
  have h: "imageFiles (ex_session ex_uploads) \<noteq> []" by (simp add: ex_session_def ex_uploads_def)
  have l: "2 * length ex_uploads = 4" "2 \<le> length ex_uploads" by (simp_all add: ex_uploads_def)
  have c: "map (\<lambda>i. CleanImageCall i (file (ex_uploads ! i))) [0..<length ex_uploads] =
      [CleanImageCall 0 (file (ex_item ''a'' None)), CleanImageCall 1 (file (ex_item ''b'' None))]"
    by (simp add: ex_uploads_def upt_rec)
  from all_calls_start_before_any_settles [OF h, of "ex_env [1, 0]"] h show ?thesis
    by (simp only: i l c) simp
qed

section \<open>A failing call\<close>

lemma those_None_iff: "those xs = None \<longleftrightarrow> None \<in> set xs"
  by (induction xs) (auto split: option.splits)

lemma awaitAll_rejected:
  assumes "\<forall>(i, u)\<in>set resolved. outs ! i = Inr u"
    and "find (\<lambda>j. j < length outs \<and> isl (outs ! j)) order = Some k"
  shows "snd (awaitAll outs resolved order) = Rejected (projl (outs ! k))"
  using assms
proof (induction order arbitrary: resolved)
  case Nil
  then show ?case by simp
next
  case (Cons k' later)
  from Cons.prems(2) have k: "k < length outs" "isl (outs ! k)"
    by (auto dest: find_Some_iff [THEN iffD1] split: if_splits)
  have "map_of resolved k = None"
  proof (cases "map_of resolved k")
    case (Some u)
    then have "(k, u) \<in> set resolved" by (rule map_of_SomeD)
    with Cons.prems(1) k(2) show ?thesis by auto
  qed simp
  with k(1) have "None \<in> set (map (map_of resolved) [0..<length outs])"
    by (auto simp: image_iff intro!: bexI [of _ k])
  then have th: "those (map (map_of resolved) [0..<length outs]) = None"
    by (simp only: those_None_iff)
  show ?case
  proof (cases "k' \<ge> length outs \<or> map_of resolved k' \<noteq> None")
    case True
    have "\<not> (k' < length outs \<and> isl (outs ! k'))"
    proof
      assume a: "k' < length outs \<and> isl (outs ! k')"
      with True obtain u where "map_of resolved k' = Some u" by auto
      then have "(k', u) \<in> set resolved" by (rule map_of_SomeD)
      with Cons.prems(1) have "outs ! k' = Inr u" by auto
      with a show False by simp
    qed
    with Cons.prems(2) have "find (\<lambda>j. j < length outs \<and> isl (outs ! j)) later = Some k"
      by simp
    from Cons.IH [OF Cons.prems(1) this] True th show ?thesis by simp
  next
    case False
    show ?thesis
    proof (cases "outs ! k'")
      case (Inl reason)
      with False Cons.prems(2) have "k = k'" by simp
      with False th Inl show ?thesis by simp
    next
      case (Inr url)
      with Cons.prems(2) have f: "find (\<lambda>j. j < length outs \<and> isl (outs ! j)) later = Some k"
        by simp
      from Inr Cons.prems(1) have "\<forall>(i, u)\<in>set ((k', url) # resolved). outs ! i = Inr u"
        by simp
      from Cons.IH [OF this f] False th Inr show ?thesis
        by (cases "awaitAll outs ((k', url) # resolved) later") simp
    qed
  qed
qed

lemma outcomes_nth:
  "map (\<lambda>(index, imageFile).
      cleanImage (jsonStringify env) (generateContentAt env index) (file imageFile))
        (enumerate 0 (imageFiles s)) = map (outcomeOf env s) [0..<length (imageFiles s)]"
  unfolding outcomeOf_def by (rule enumerate_map_nth)

text \<open>
  C3, as the code has it.  When the call for item \<open>k\<close> fails with a message and no call
  that settles before it fails (\<open>k\<close> is the first failing index in the order of
  settlement), the status becomes \<open>ERROR\<close>, the held error message is that message, and no
  document is laid out.  All \<open>n\<close> calls have been made all the same.
\<close>

theorem first_observed_failure_is_reported:
  assumes "imageFiles s \<noteq> []"
    and "find (\<lambda>j. j < length (imageFiles s) \<and> isl (outcomeOf env s j)) (settleOrder env) = Some k"
    and "outcomeOf env s k = Inl (Error msg)"
  shows "processingState (fst (handleProcessImages env s)) = ERROR \<and>
         errorMessage (fst (handleProcessImages env s)) = msg \<and>
         pdfUrl (fst (handleProcessImages env s)) = pdfUrl s \<and>
         NewDocument \<notin> set (snd (handleProcessImages env s)) \<and>
         filter isCall (snd (handleProcessImages env s)) =
           map (\<lambda>i. CleanImageCall i (file (imageFiles s ! i))) [0..<length (imageFiles s)]"
proof -
  define s0 where "s0 = s\<lparr>processingState := PROCESSING, errorMessage := []\<rparr>"
  define outs where "outs = map (outcomeOf env s) [0..<length (imageFiles s)]"
  obtain s1 started where sc: "startCleaning (length (imageFiles s)) 0 (imageFiles s) s0 = (s1, started)"
    by (cases "startCleaning (length (imageFiles s)) 0 (imageFiles s) s0")
  obtain m where s1: "s1 = s0\<lparr>progressMessage := m\<rparr>"
    using startCleaning_state [of "length (imageFiles s)" 0 "imageFiles s" s0] sc by auto
  have st: "started = concat (map (callOf (imageFiles s)) [0..<length (imageFiles s)])"
    using started_calls [of "imageFiles s" s0] sc by simp
  from assms(2) have k: "k < length (imageFiles s)"
    by (auto dest: find_Some_iff [THEN iffD1])
  have "find (\<lambda>j. j < length outs \<and> isl (outs ! j)) (settleOrder env) =
        find (\<lambda>j. j < length (imageFiles s) \<and> isl (outcomeOf env s j)) (settleOrder env)"
    by (rule find_cong) (auto simp: outs_def)
  with assms(2) have "snd (awaitAll outs [] (settleOrder env)) = Rejected (projl (outs ! k))"
    by (intro awaitAll_rejected) simp_all
  with k assms(3) have rj: "snd (awaitAll outs [] (settleOrder env)) = Rejected (Error msg)"
    by (simp add: outs_def)
  obtain settlements where aw: "awaitAll outs [] (settleOrder env) = (settlements, Rejected (Error msg))"
    using rj by (cases "awaitAll outs [] (settleOrder env)") simp
  have se: "\<forall>e\<in>set settlements. \<exists>j. e = CleanImageSettled j"
    using awaitAll_events [of _ outs "[]" "settleOrder env"] aw by simp
  have hp: "handleProcessImages env s =
      (s1\<lparr>errorMessage := msg, processingState := ERROR\<rparr>, started @ settlements)"
    using assms(1) sc aw
    by (simp add: handleProcessImages_def outcomes_nth s0_def [symmetric] outs_def [symmetric])
  have fs: "filter isCall settlements = []"
    using se by (auto simp: filter_empty_conv)
  have nd: "NewDocument \<notin> set started"
    unfolding st by (induction "[0..<length (imageFiles s)]") (auto simp: callOf_def)
  have nd2: "NewDocument \<notin> set settlements" using se by auto
  show ?thesis
    by (simp add: hp s1 s0_def fs nd nd2) (simp add: st filter_isCall_callOf)
qed

lemma ex_failing_outcome:
  "outcomeOf (ex_env [0, 1]) (ex_session ex_failing) 0 =
     Inl (Error ''Failed to process image with AI. An unknown error occurred.'')"
  by code_simp

text \<open>
  With two uploads of which the first cannot be read, the first call fails, and the call
  for the second item is made nevertheless.
\<close>

theorem later_calls_made_despite_failure:
  "outcomeOf (ex_env [0, 1]) (ex_session ex_failing) 0 =
     Inl (Error ''Failed to process image with AI. An unknown error occurred.'') \<and>
   CleanImageCall 1 (file (ex_item ''b'' None))
     \<in> set (snd (handleProcessImages (ex_env [0, 1]) (ex_session ex_failing)))"
  by code_simp

theorem first_observed_failure_is_reported_witness:
  "imageFiles (ex_session ex_failing) \<noteq> [] \<and>
   find (\<lambda>j. j < length (imageFiles (ex_session ex_failing)) \<and>
      isl (outcomeOf (ex_env [0, 1]) (ex_session ex_failing) j)) (settleOrder (ex_env [0, 1])) = Some 0 \<and>
   processingState (fst (handleProcessImages (ex_env [0, 1]) (ex_session ex_failing))) = ERROR \<and>
   errorMessage (fst (handleProcessImages (ex_env [0, 1]) (ex_session ex_failing))) =
     ''Failed to process image with AI. An unknown error occurred.'' \<and>
   filter isCall (snd (handleProcessImages (ex_env [0, 1]) (ex_session ex_failing))) =
     [CleanImageCall 0 (file (ex_unreadable ''a'')), CleanImageCall 1 (file (ex_item ''b'' None))]"
proof -
  have i: "imageFiles (ex_session ex_failing) = ex_failing" by (simp add: ex_session_def)
  have h: "imageFiles (ex_session ex_failing) \<noteq> []" by (simp add: ex_session_def ex_failing_def)
  have f: "find (\<lambda>j. j < length (imageFiles (ex_session ex_failing)) \<and>
      isl (outcomeOf (ex_env [0, 1]) (ex_session ex_failing) j)) (settleOrder (ex_env [0, 1])) = Some 0"
    by code_simp
  have c: "map (\<lambda>i. CleanImageCall i (file (ex_failing ! i))) [0..<length ex_failing] =
      [CleanImageCall 0 (file (ex_unreadable ''a'')), CleanImageCall 1 (file (ex_item ''b'' None))]"
    by (simp add: ex_failing_def upt_rec)
  from first_observed_failure_is_reported [OF h f ex_failing_outcome] h f show ?thesis
    by (simp only: i c) simp
qed

section \<open>Layout\<close>






section \<open>Pages\<close>

lemma layoutLoop_later_items:
  assumes "\<forall>im\<in>set items. \<forall>u. cleanedUrl im = Some u \<and> u \<noteq> [] \<longrightarrow> sizeOf u \<noteq> None"
    and "0 < i"
  shows "snd (layoutLoop sizeOf i items) \<and>
     pageCount (fst (layoutLoop sizeOf i items)) = length (filter (\<lambda>im. truthy (cleanedUrl im)) items) \<and>
     placedImages (fst (layoutLoop sizeOf i items)) =
       map (\<lambda>im. js_str (cleanedUrl im)) (filter (\<lambda>im. truthy (cleanedUrl im)) items)"
  using assms
proof (induction items arbitrary: i)
  case Nil
  then show ?case by (simp add: pageCount_def)
next
  case (Cons im items)
  from Cons.prems(1) have dec: "\<forall>im\<in>set items. \<forall>u. cleanedUrl im = Some u \<and> u \<noteq> [] \<longrightarrow> sizeOf u \<noteq> None"
    by simp
  note IH = Cons.IH [OF dec, of "Suc i"]
  show ?case
  proof (cases "truthy (cleanedUrl im)")
    case False
    then have "layoutLoop sizeOf i (im # items) = layoutLoop sizeOf (Suc i) items"
      by (auto simp: truthy_def split: option.splits)
    with IH False show ?thesis by simp
  next
    case True
    then obtain u where u: "cleanedUrl im = Some u" "u \<noteq> []"
      by (auto simp: truthy_def split: option.splits)
    with Cons.prems(1) obtain w h where wh: "sizeOf u = Some (w, h)" by fastforce
    obtain t fin where ll: "layoutLoop sizeOf (Suc i) items = (t, fin)"
      by (cases "layoutLoop sizeOf (Suc i) items")
    obtain x y fw fh where fi: "fitImage w h = (x, y, fw, fh)"
      by (cases "fitImage w h") auto
    from IH ll u wh fi True Cons.prems(2) show ?thesis
      by (simp add: pageCount_def js_str_def)
  qed
qed

text \<open>
  In general the document has its first page and one more page for every item after the
  first that has a cleaned result.
\<close>

lemma layoutLoop_pages_in_general:
  assumes "\<forall>im\<in>set items. \<forall>u. cleanedUrl im = Some u \<and> u \<noteq> [] \<longrightarrow> sizeOf u \<noteq> None"
  shows "pageCount (NewDocument # fst (layoutLoop sizeOf 0 items)) =
     1 + length (filter (\<lambda>im. truthy (cleanedUrl im)) (tl items))"
proof (cases items)
  case Nil
  then show ?thesis by (simp add: pageCount_def)
next
  case (Cons first rest)
  with assms have dec: "\<forall>im\<in>set rest. \<forall>u. cleanedUrl im = Some u \<and> u \<noteq> [] \<longrightarrow> sizeOf u \<noteq> None"
    by simp
  note later = layoutLoop_later_items [OF dec, of "Suc 0"]
  show ?thesis
  proof (cases "truthy (cleanedUrl first)")
    case False
    then have "layoutLoop sizeOf 0 (first # rest) = layoutLoop sizeOf (Suc 0) rest"
      by (auto simp: truthy_def split: option.splits)
    with later Cons show ?thesis by (simp add: pageCount_def)
  next
    case True
    then obtain u where u: "cleanedUrl first = Some u" "u \<noteq> []"
      by (auto simp: truthy_def split: option.splits)
    with assms Cons obtain w h where wh: "sizeOf u = Some (w, h)" by fastforce
    obtain t fin where ll: "layoutLoop sizeOf (Suc 0) rest = (t, fin)"
      by (cases "layoutLoop sizeOf (Suc 0) rest")
    obtain x y fw fh where fi: "fitImage w h = (x, y, fw, fh)"
      by (cases "fitImage w h") auto
    from later ll u wh fi Cons show ?thesis
      by (simp add: pageCount_def)
  qed
qed




end
